theory Spec2Isabelle
  imports Main "HOL-Library.Word"
begin

unbundle bit_operations_syntax

section \<open>UTF-8 to UTF-16 conversion (UnicodeConv.hpp)\<close>

text \<open>
  The development embeds the function \<open>Utf16FromUtf8\<close> of \<^verbatim>\<open>UnicodeConv.hpp\<close>
  together with the exception class \<open>Utf16FromUtf8ConversionError\<close> declared beside it.
  A \<open>std::string\<close> is the list of its bytes, a \<open>std::wstring\<close> (Windows: 16-bit
  \<open>wchar_t\<close>) the list of its code units, \<open>int\<close> a 32-bit word read by \<open>sint\<close>,
  \<open>DWORD\<close> and \<open>UINT\<close> 32-bit words read unsigned. A thrown exception is the left
  summand of the result. The Win32 calls are effects on an operating-system state that is
  passed through the function; beside the result the model returns the list of the calls
  it made, in order, so that "no call was made" is a statement about the model.
\<close>

subsection \<open>C and C++ data\<close>

type_synonym utf8_char = "8 word"
type_synonym wchar_t = "16 word"
type_synonym c_int = "32 word"
type_synonym DWORD = "32 word"
type_synonym UINT = "32 word"

text \<open>\<open>std::numeric_limits<int>::max()\<close> for the 32-bit \<open>int\<close> of the Windows ABIs.\<close>

definition INT_MAX :: nat where
  "INT_MAX = 2 ^ 31 - 1"

text \<open>
  The exceptions that leave \<open>Utf16FromUtf8\<close>. \<open>Utf16FromUtf8ConversionError\<close> holds
  the message handed to \<open>std::runtime_error\<close> and the member \<open>m_errorCode\<close>;
  \<open>std::overflow_error\<close> is thrown by the function itself and holds a message only;
  \<open>std::length_error\<close> is what \<open>std::wstring::resize\<close> throws when it is asked for
  more than \<open>max_size()\<close> elements, which is where a negative \<open>int\<close> converted to
  \<open>size_t\<close> lands. Memory exhaustion (\<open>std::bad_alloc\<close>) is not modelled: allocation
  succeeds.
\<close>

datatype exn =
    overflow_error string
  | length_error string
  | Utf16FromUtf8ConversionError string DWORD

fun what :: "exn \<Rightarrow> string" where
  "what (overflow_error m) = m"
| "what (length_error m) = m"
| "what (Utf16FromUtf8ConversionError m c) = m"

text \<open>
  The member function \<open>ErrorCode()\<close> exists on \<open>Utf16FromUtf8ConversionError\<close> only;
  the standard exception classes have no such member, which is \<open>None\<close> here.
\<close>

fun ErrorCode :: "exn \<Rightarrow> DWORD option" where
  "ErrorCode (Utf16FromUtf8ConversionError m c) = Some c"
| "ErrorCode (overflow_error m) = None"
| "ErrorCode (length_error m) = None"

text \<open>
  A \<open>catch\<close> clause names a class and takes every exception of that class or of a class
  derived from it. The classes involved: \<open>Utf16FromUtf8ConversionError\<close> and
  \<open>std::overflow_error\<close> derive from \<open>std::runtime_error\<close>, \<open>std::length_error\<close>
  from \<open>std::logic_error\<close>, and both of these from \<open>std::exception\<close>.
\<close>

datatype handler =
    catch_Utf16FromUtf8ConversionError
  | catch_overflow_error
  | catch_length_error
  | catch_runtime_error
  | catch_logic_error
  | catch_exception

fun catches :: "handler \<Rightarrow> exn \<Rightarrow> bool" where
  "catches catch_Utf16FromUtf8ConversionError e =
     (case e of Utf16FromUtf8ConversionError m c \<Rightarrow> True | _ \<Rightarrow> False)"
| "catches catch_overflow_error e = (case e of overflow_error m \<Rightarrow> True | _ \<Rightarrow> False)"
| "catches catch_length_error e = (case e of length_error m \<Rightarrow> True | _ \<Rightarrow> False)"
| "catches catch_runtime_error e = (case e of length_error m \<Rightarrow> False | _ \<Rightarrow> True)"
| "catches catch_logic_error e = (case e of length_error m \<Rightarrow> True | _ \<Rightarrow> False)"
| "catches catch_exception e = True"

subsection \<open>The Win32 interface the function calls\<close>

text \<open>
  Modelled from the spec: the header \<^verbatim>\<open>Windows.h\<close> and the Win32 functions
  \<open>MultiByteToWideChar\<close> and \<open>GetLastError\<close> are not part of the repository. The
  constants below are the values the Platform SDK gives to the names the source uses
  (\<open>CP_UTF8\<close>, \<open>MB_ERR_INVALID_CHARS\<close>, \<open>ERROR_NO_UNICODE_TRANSLATION\<close>, the
  diagnostic the spec calls "no valid Unicode translation") and to the two other
  diagnostics the reference behaviour of the primitive needs.
\<close>

definition CP_UTF8 :: UINT where
  "CP_UTF8 = 65001"

definition MB_ERR_INVALID_CHARS :: DWORD where
  "MB_ERR_INVALID_CHARS = 0x00000008"

definition ERROR_NO_UNICODE_TRANSLATION :: DWORD where
  "ERROR_NO_UNICODE_TRANSLATION = 1113"

definition ERROR_INSUFFICIENT_BUFFER :: DWORD where
  "ERROR_INSUFFICIENT_BUFFER = 122"

definition ERROR_INVALID_PARAMETER :: DWORD where
  "ERROR_INVALID_PARAMETER = 87"

text \<open>
  The two Win32 functions, as parameters of the model, over an arbitrary state \<open>'s\<close> of
  the operating system. \<open>MultiByteToWideChar\<close> takes the arguments in the order of the
  C prototype: code page, flags, the bytes at the source pointer, \<open>cbMultiByte\<close>, the
  destination buffer (\<open>None\<close> for \<open>nullptr\<close>, otherwise its present contents) and
  \<open>cchWideChar\<close>; it returns its \<open>int\<close> result, the code units it wrote from the
  start of the destination, and the new state. \<open>GetLastError\<close> reads the state.
\<close>

record 's win32 =
  MultiByteToWideChar ::
    "UINT \<Rightarrow> DWORD \<Rightarrow> utf8_char list \<Rightarrow> c_int \<Rightarrow> wchar_t list option \<Rightarrow> c_int
      \<Rightarrow> 's \<Rightarrow> (c_int \<times> wchar_t list) \<times> 's"
  GetLastError :: "'s \<Rightarrow> DWORD"

text \<open>The calls the model records.\<close>

datatype api_call =
    call_MultiByteToWideChar UINT DWORD "utf8_char list" c_int "wchar_t list option" c_int
  | call_GetLastError

text \<open>
  Writing through a destination pointer with a buffer size: the callee overwrites the
  buffer from its start and cannot make it longer or shorter.
\<close>

definition store_wchars :: "wchar_t list \<Rightarrow> wchar_t list \<Rightarrow> wchar_t list" where
  "store_wchars buf ws = take (length buf) (ws @ drop (length ws) buf)"

subsection \<open>Utf16FromUtf8\<close>

definition msg_too_long :: string where
  "msg_too_long = ''Input string too long: size_t-length doesn't fit into int.''"

definition msg_invalid_utf8 :: string where
  "msg_invalid_utf8 = ''Invalid UTF-8 sequence found in input string.''"

definition msg_cannot_get_length :: string where
  "msg_cannot_get_length =
     ''Cannot get result string length when converting from UTF-8 to UTF-16 (MultiByteToWideChar failed).''"

definition msg_cannot_convert :: string where
  "msg_cannot_convert =
     ''Cannot convert from UTF-8 to UTF-16 (MultiByteToWideChar failed).''"

text \<open>The message \<open>std::wstring::resize\<close> gives to \<open>std::length_error\<close> (MSVC).\<close>

definition msg_resize :: string where
  "msg_resize = ''string too long''"

text \<open>
  The function, statement by statement. The result is the returned \<open>std::wstring\<close> or
  the exception thrown, then the Win32 calls made, then the final state.
\<close>

definition Utf16FromUtf8 ::
  "'s win32 \<Rightarrow> utf8_char list \<Rightarrow> 's \<Rightarrow> (exn + wchar_t list) \<times> api_call list \<times> 's" where
  "Utf16FromUtf8 api utf8 s0 =
     (let utf16 = [] in
      if utf8 = [] then (Inr utf16, [], s0)
      else
        let kFlags = MB_ERR_INVALID_CHARS in
        if length utf8 > INT_MAX then (Inl (overflow_error msg_too_long), [], s0)
        else
          let utf8Length = (of_nat (length utf8) :: c_int);
              call1 = call_MultiByteToWideChar CP_UTF8 kFlags utf8 utf8Length None 0;
              ((utf16Length, _), s1) =
                 MultiByteToWideChar api CP_UTF8 kFlags utf8 utf8Length None 0 s0
          in
          if utf16Length = 0 then
            let error = GetLastError api s1 in
            (Inl (Utf16FromUtf8ConversionError
                    (if error = ERROR_NO_UNICODE_TRANSLATION then msg_invalid_utf8
                     else msg_cannot_get_length)
                    error),
             [call1, call_GetLastError], s1)
          else if sint utf16Length < 0 then (Inl (length_error msg_resize), [call1], s1)
          else
            let utf16 = replicate (nat (sint utf16Length)) (0 :: wchar_t);
                call2 = call_MultiByteToWideChar CP_UTF8 kFlags utf8 utf8Length
                          (Some utf16) utf16Length;
                ((result, written), s2) =
                   MultiByteToWideChar api CP_UTF8 kFlags utf8 utf8Length
                     (Some utf16) utf16Length s1;
                utf16 = store_wchars utf16 written
            in
            if result = 0 then
              let error = GetLastError api s2 in
              (Inl (Utf16FromUtf8ConversionError
                      (if error = ERROR_NO_UNICODE_TRANSLATION then msg_invalid_utf8
                       else msg_cannot_convert)
                      error),
               [call1, call2, call_GetLastError], s2)
            else (Inr utf16, [call1, call2], s2))"

text \<open>
  The two phases of the function, named for the statements below. The measurement phase
  is the first call of \<open>MultiByteToWideChar\<close>, with no destination; the function
  reaches it when the input is not empty and its length fits \<open>int\<close>. The fill phase is
  the second call, into the resized string; the function reaches it when the measurement
  phase returned a positive count. Each is \<open>None\<close> when the function does not reach it,
  and otherwise what the call returned: the \<open>int\<close> result, the code units written, the
  state after the call.
\<close>

definition measurement_phase ::
  "'s win32 \<Rightarrow> utf8_char list \<Rightarrow> 's \<Rightarrow> ((c_int \<times> wchar_t list) \<times> 's) option" where
  "measurement_phase api utf8 s0 =
     (if utf8 = [] \<or> INT_MAX < length utf8 then None
      else Some (MultiByteToWideChar api CP_UTF8 MB_ERR_INVALID_CHARS utf8
                   (of_nat (length utf8)) None 0 s0))"

definition fill_phase ::
  "'s win32 \<Rightarrow> utf8_char list \<Rightarrow> 's \<Rightarrow> ((c_int \<times> wchar_t list) \<times> 's) option" where
  "fill_phase api utf8 s0 =
     (case measurement_phase api utf8 s0 of
        None \<Rightarrow> None
      | Some ((utf16Length, _), s1) \<Rightarrow>
          if utf16Length = 0 \<or> sint utf16Length < 0 then None
          else Some (MultiByteToWideChar api CP_UTF8 MB_ERR_INVALID_CHARS utf8
                       (of_nat (length utf8))
                       (Some (replicate (nat (sint utf16Length)) 0)) utf16Length s1))"

text \<open>
  The spec names four kinds of failure; the source has no such enumeration and tells them
  apart by the class of the exception and its message. This is the spec's classification
  read off the exception: \<open>InputTooLarge\<close> is the \<open>std::overflow_error\<close>, the other
  three are the \<open>Utf16FromUtf8ConversionError\<close> with the respective message. An
  exception the spec has no kind for has none.
\<close>

datatype ErrorKind = InputTooLarge | InvalidUtf8Sequence | MeasurementFailed | ConversionFailed

definition spec_ErrorKind :: "exn \<Rightarrow> ErrorKind option" where
  "spec_ErrorKind e =
     (case e of
        overflow_error m \<Rightarrow> if m = msg_too_long then Some InputTooLarge else None
      | length_error m \<Rightarrow> None
      | Utf16FromUtf8ConversionError m c \<Rightarrow>
          if m = msg_invalid_utf8 then Some InvalidUtf8Sequence
          else if m = msg_cannot_get_length then Some MeasurementFailed
          else if m = msg_cannot_convert then Some ConversionFailed
          else None)"

subsection \<open>The reference behaviour of the conversion primitive\<close>

text \<open>
  Modelled from the spec: the body of \<open>MultiByteToWideChar\<close> is Win32 code and not in
  the repository. What follows is the behaviour the spec requires of the primitive in the
  one mode the source uses it (code page \<open>CP_UTF8\<close>, flag \<open>MB_ERR_INVALID_CHARS\<close>):
  strict validation, rejecting "any byte subsequence that does not decode to a valid
  Unicode scalar value", among them "overlong encodings" and "unpaired surrogates
  smuggled into UTF-8", with no substitution; a count of zero signals failure, and the
  diagnostic of an invalid sequence is "no valid Unicode translation". The well-formed
  byte sequences are those of the Unicode standard (one to four bytes, second byte
  restricted after the lead bytes E0, ED, F0 and F4).
\<close>

definition is_trail :: "utf8_char \<Rightarrow> bool" where
  "is_trail b = (0x80 \<le> b \<and> b \<le> 0xBF)"

text \<open>The range of the second byte, which depends on the lead byte.\<close>

definition second_ok :: "utf8_char \<Rightarrow> utf8_char \<Rightarrow> bool" where
  "second_ok b0 b1 =
     (if b0 = 0xE0 then 0xA0 \<le> b1 \<and> b1 \<le> 0xBF
      else if b0 = 0xED then 0x80 \<le> b1 \<and> b1 \<le> 0x9F
      else if b0 = 0xF0 then 0x90 \<le> b1 \<and> b1 \<le> 0xBF
      else if b0 = 0xF4 then 0x80 \<le> b1 \<and> b1 \<le> 0x8F
      else is_trail b1)"

text \<open>The payload bits of a byte: the low \<open>k\<close> bits, as a number.\<close>

definition low_bits :: "nat \<Rightarrow> utf8_char \<Rightarrow> nat" where
  "low_bits k b = unat b mod 2 ^ k"

text \<open>
  Modelled from the spec: the strict decoding that \<open>MultiByteToWideChar\<close> performs
  on a whole byte sequence, to scalar values; \<open>None\<close> if the sequence is ill-formed.
\<close>

fun utf8_decode :: "utf8_char list \<Rightarrow> nat list option" where
  "utf8_decode [] = Some []"
| "utf8_decode (b0 # bs) =
     (if b0 < 0x80 then map_option ((#) (unat b0)) (utf8_decode bs)
      else if 0xC2 \<le> b0 \<and> b0 \<le> 0xDF then
        (case bs of
           b1 # r \<Rightarrow>
             if is_trail b1
             then map_option ((#) (low_bits 5 b0 * 64 + low_bits 6 b1)) (utf8_decode r)
             else None
         | _ \<Rightarrow> None)
      else if 0xE0 \<le> b0 \<and> b0 \<le> 0xEF then
        (case bs of
           b1 # b2 # r \<Rightarrow>
             if second_ok b0 b1 \<and> is_trail b2
             then map_option
                    ((#) (low_bits 4 b0 * 4096 + low_bits 6 b1 * 64 + low_bits 6 b2))
                    (utf8_decode r)
             else None
         | _ \<Rightarrow> None)
      else if 0xF0 \<le> b0 \<and> b0 \<le> 0xF4 then
        (case bs of
           b1 # b2 # b3 # r \<Rightarrow>
             if second_ok b0 b1 \<and> is_trail b2 \<and> is_trail b3
             then map_option
                    ((#) (low_bits 3 b0 * 262144 + low_bits 6 b1 * 4096
                          + low_bits 6 b2 * 64 + low_bits 6 b3))
                    (utf8_decode r)
             else None
         | _ \<Rightarrow> None)
      else None)"

text \<open>
  Modelled from the spec: the UTF-16 code units \<open>MultiByteToWideChar\<close> produces for
  a scalar value, one code unit or a surrogate pair.
\<close>

definition utf16_encode1 :: "nat \<Rightarrow> wchar_t list" where
  "utf16_encode1 c =
     (if c < 0x10000 then [of_nat c]
      else [of_nat (0xD800 + (c - 0x10000) div 0x400),
            of_nat (0xDC00 + (c - 0x10000) mod 0x400)])"

definition utf16_encode :: "nat list \<Rightarrow> wchar_t list" where
  "utf16_encode cs = concat (map utf16_encode1 cs)"

text \<open>
  Modelled from the spec: \<open>MultiByteToWideChar\<close> itself, absent from the repository,
  on a state that is the thread's last-error code. With \<open>cchWideChar = 0\<close>
  it measures: it returns the number of code units required and writes nothing.
  Otherwise it fills the destination and returns the number of code units written. It
  returns 0 and sets the last-error code when it fails; a success leaves the code as it
  was. Calls outside the mode described above are answered with
  \<open>ERROR_INVALID_PARAMETER\<close>; the source makes none.
\<close>

definition strict_MultiByteToWideChar ::
  "UINT \<Rightarrow> DWORD \<Rightarrow> utf8_char list \<Rightarrow> c_int \<Rightarrow> wchar_t list option \<Rightarrow> c_int
    \<Rightarrow> DWORD \<Rightarrow> (c_int \<times> wchar_t list) \<times> DWORD" where
  "strict_MultiByteToWideChar CodePage dwFlags src cbMultiByte dst cchWideChar err =
     (if CodePage \<noteq> CP_UTF8 \<or> dwFlags \<noteq> MB_ERR_INVALID_CHARS
         \<or> sint cbMultiByte \<le> 0 \<or> sint cchWideChar < 0
         \<or> (dst = None \<and> cchWideChar \<noteq> 0)
      then ((0, []), ERROR_INVALID_PARAMETER)
      else
        (case utf8_decode (take (nat (sint cbMultiByte)) src) of
           None \<Rightarrow> ((0, []), ERROR_NO_UNICODE_TRANSLATION)
         | Some cs \<Rightarrow>
             let ws = utf16_encode cs in
             if cchWideChar = 0 then ((of_nat (length ws), []), err)
             else if nat (sint cchWideChar) < length ws
             then ((0, []), ERROR_INSUFFICIENT_BUFFER)
             else ((of_nat (length ws), ws), err)))"

text \<open>
  Modelled from the spec: the two Win32 functions together; \<open>GetLastError\<close>, also
  absent from the repository, returns the thread's last-error code.
\<close>

definition strict_win32 :: "DWORD win32" where
  "strict_win32 =
     \<lparr> MultiByteToWideChar = strict_MultiByteToWideChar, GetLastError = (\<lambda>err. err) \<rparr>"

text \<open>
  A scripted stand-in for the Win32 functions, for exercising the error paths that the
  reference primitive never takes: the measuring call returns \<open>measured\<close>, the filling
  call returns \<open>filled\<close> and writes nothing, and a call that returns 0 sets the
  last-error code to \<open>code\<close>.
\<close>

definition scripted_win32 :: "c_int \<Rightarrow> c_int \<Rightarrow> DWORD \<Rightarrow> DWORD win32" where
  "scripted_win32 measured filled code =
     \<lparr> MultiByteToWideChar =
         (\<lambda>CodePage dwFlags src cbMultiByte dst cchWideChar err.
            case dst of
              None \<Rightarrow> ((measured, []), if measured = 0 then code else err)
            | Some buf \<Rightarrow> ((filled, []), if filled = 0 then code else err)),
       GetLastError = (\<lambda>err. err) \<rparr>"

definition is_ascii :: "utf8_char \<Rightarrow> bool" where
  "is_ascii b = (b < 0x80)"

text \<open>The spec's operation \<open>convert\<close>: the function on the reference primitive.\<close>

definition convert ::
  "utf8_char list \<Rightarrow> DWORD \<Rightarrow> (exn + wchar_t list) \<times> api_call list \<times> DWORD" where
  "convert utf8 err = Utf16FromUtf8 strict_win32 utf8 err"

text \<open>
  Well-formed UTF-16: every code unit is outside the surrogate range, or is a high
  surrogate followed at once by a low surrogate.
\<close>

fun utf16_well_formed :: "wchar_t list \<Rightarrow> bool" where
  "utf16_well_formed [] = True"
| "utf16_well_formed [w] = (w < 0xD800 \<or> 0xDFFF < w)"
| "utf16_well_formed (w # w' # ws) =
     (if w < 0xD800 \<or> 0xDFFF < w then utf16_well_formed (w' # ws)
      else w \<le> 0xDBFF \<and> 0xDC00 \<le> w' \<and> w' \<le> 0xDFFF \<and> utf16_well_formed ws)"

text \<open>A Unicode scalar value: a code point outside the surrogate range.\<close>

definition is_scalar :: "nat \<Rightarrow> bool" where
  "is_scalar c = (c < 0xD800 \<or> (0xDFFF < c \<and> c < 0x110000))"

text \<open>
  The contract of \<open>MultiByteToWideChar\<close> on its result, for the measuring call of a run:
  the count returned is not negative. It holds vacuously when the run makes no such call.
\<close>

definition count_not_negative :: "'s win32 \<Rightarrow> utf8_char list \<Rightarrow> 's \<Rightarrow> bool" where
  "count_not_negative api utf8 s0 =
     (case measurement_phase api utf8 s0 of
        None \<Rightarrow> True
      | Some ((utf16Length, _), _) \<Rightarrow> 0 \<le> sint utf16Length)"

section \<open>Auxiliary facts\<close>

subsection \<open>Machine integers and the destination buffer\<close>

lemma sint_of_nat_int: "n < 2 ^ 31 \<Longrightarrow> sint (of_nat n :: c_int) = int n"
  by (simp add: signed_of_nat signed_take_bit_int_eq_self)

lemma of_nat_int_nonzero: "0 < n \<Longrightarrow> n < 2 ^ 31 \<Longrightarrow> (of_nat n :: c_int) \<noteq> 0"
proof
  assume n: "0 < n" "n < 2 ^ 31" and z: "(of_nat n :: c_int) = 0"
  from n(2) have "sint (of_nat n :: c_int) = int n" by (rule sint_of_nat_int)
  with z n(1) show False by simp
qed

lemma length_store_wchars: "length (store_wchars buf ws) = length buf"
  by (simp add: store_wchars_def)

lemma store_wchars_exact: "length ws = length buf \<Longrightarrow> store_wchars buf ws = ws"
  by (simp add: store_wchars_def)

lemma spec_ErrorKind_simps:
  "spec_ErrorKind (overflow_error msg_too_long) = Some InputTooLarge"
  "spec_ErrorKind (Utf16FromUtf8ConversionError msg_invalid_utf8 c) = Some InvalidUtf8Sequence"
  "spec_ErrorKind (Utf16FromUtf8ConversionError msg_cannot_get_length c) = Some MeasurementFailed"
  "spec_ErrorKind (Utf16FromUtf8ConversionError msg_cannot_convert c) = Some ConversionFailed"
  by (simp_all add: spec_ErrorKind_def msg_invalid_utf8_def msg_cannot_get_length_def
      msg_cannot_convert_def)

subsection \<open>The paths of Utf16FromUtf8\<close>

lemma Utf16FromUtf8_too_long:
  "INT_MAX < length utf8 \<Longrightarrow>
     Utf16FromUtf8 api utf8 s = (Inl (overflow_error msg_too_long), [], s)"
  by (auto simp add: Utf16FromUtf8_def)

lemma Utf16FromUtf8_measure_zero:
  assumes "measurement_phase api utf8 s = Some ((0, ws), s1)"
  shows "Utf16FromUtf8 api utf8 s =
     (Inl (Utf16FromUtf8ConversionError
            (if GetLastError api s1 = ERROR_NO_UNICODE_TRANSLATION then msg_invalid_utf8
             else msg_cannot_get_length)
            (GetLastError api s1)),
      [call_MultiByteToWideChar CP_UTF8 MB_ERR_INVALID_CHARS utf8 (of_nat (length utf8)) None 0,
       call_GetLastError],
      s1)"
  using assms
  by (simp add: measurement_phase_def Utf16FromUtf8_def split: if_splits)

lemma Utf16FromUtf8_fill_zero:
  assumes "fill_phase api utf8 s = Some ((0, ws), s2)"
  shows "fst (Utf16FromUtf8 api utf8 s) =
     Inl (Utf16FromUtf8ConversionError
            (if GetLastError api s2 = ERROR_NO_UNICODE_TRANSLATION then msg_invalid_utf8
             else msg_cannot_convert)
            (GetLastError api s2))
     \<and> snd (snd (Utf16FromUtf8 api utf8 s)) = s2"
  using assms
  by (auto simp add: fill_phase_def measurement_phase_def Utf16FromUtf8_def Let_def
      split: if_splits prod.splits)

text \<open>
  A returned string has exactly the length the measuring call reported, whatever the
  filling call wrote.
\<close>

lemma Utf16FromUtf8_success_length:
  assumes "fst (Utf16FromUtf8 api utf8 s) = Inr utf16" and "utf8 \<noteq> []"
  shows "\<exists>n ws s1. measurement_phase api utf8 s = Some ((n, ws), s1)
           \<and> 0 < sint n \<and> length utf16 = nat (sint n)"
proof -
  have pos: "0 < sint n" if "n \<noteq> 0" "\<not> sint n < 0" for n :: c_int
    using that signed_eq_0_iff [of n, where ?'a = int] by (simp add: less_le)
  from assms show ?thesis
    by (auto simp add: Utf16FromUtf8_def measurement_phase_def Let_def length_store_wchars pos
        split: if_splits prod.splits)
qed

subsection \<open>The strict decoder, one scalar value at a time\<close>

lemma utf16_encode_Cons: "utf16_encode (c # cs) = utf16_encode1 c @ utf16_encode cs"
  by (simp add: utf16_encode_def)

lemma utf16_encode_Nil: "utf16_encode [] = []"
  by (simp add: utf16_encode_def)

lemma utf8_decode_one:
  "b0 < 0x80 \<Longrightarrow> utf8_decode (b0 # bs) = map_option ((#) (unat b0)) (utf8_decode bs)"
  by simp

lemma utf8_decode_two:
  "\<not> b0 < 0x80 \<Longrightarrow> 0xC2 \<le> b0 \<and> b0 \<le> 0xDF \<Longrightarrow>
   utf8_decode (b0 # bs) =
     (case bs of
        b1 # r \<Rightarrow>
          if is_trail b1
          then map_option ((#) (low_bits 5 b0 * 64 + low_bits 6 b1)) (utf8_decode r)
          else None
      | _ \<Rightarrow> None)"
  by (simp only: utf8_decode.simps if_False if_True simp_thms)

lemma utf8_decode_three:
  "\<not> b0 < 0x80 \<Longrightarrow> \<not> (0xC2 \<le> b0 \<and> b0 \<le> 0xDF) \<Longrightarrow> 0xE0 \<le> b0 \<and> b0 \<le> 0xEF \<Longrightarrow>
   utf8_decode (b0 # bs) =
     (case bs of
        b1 # b2 # r \<Rightarrow>
          if second_ok b0 b1 \<and> is_trail b2
          then map_option
                 ((#) (low_bits 4 b0 * 4096 + low_bits 6 b1 * 64 + low_bits 6 b2))
                 (utf8_decode r)
          else None
      | _ \<Rightarrow> None)"
  by (simp only: utf8_decode.simps if_False if_True simp_thms)

lemma utf8_decode_four:
  "\<not> b0 < 0x80 \<Longrightarrow> \<not> (0xC2 \<le> b0 \<and> b0 \<le> 0xDF) \<Longrightarrow> \<not> (0xE0 \<le> b0 \<and> b0 \<le> 0xEF) \<Longrightarrow>
   0xF0 \<le> b0 \<and> b0 \<le> 0xF4 \<Longrightarrow>
   utf8_decode (b0 # bs) =
     (case bs of
        b1 # b2 # b3 # r \<Rightarrow>
          if second_ok b0 b1 \<and> is_trail b2 \<and> is_trail b3
          then map_option
                 ((#) (low_bits 3 b0 * 262144 + low_bits 6 b1 * 4096 + low_bits 6 b2 * 64
                       + low_bits 6 b3))
                 (utf8_decode r)
          else None
      | _ \<Rightarrow> None)"
  by (simp only: utf8_decode.simps if_False if_True simp_thms)

lemma utf8_decode_other:
  "\<not> b0 < 0x80 \<Longrightarrow> \<not> (0xC2 \<le> b0 \<and> b0 \<le> 0xDF) \<Longrightarrow> \<not> (0xE0 \<le> b0 \<and> b0 \<le> 0xEF) \<Longrightarrow>
   \<not> (0xF0 \<le> b0 \<and> b0 \<le> 0xF4) \<Longrightarrow> utf8_decode (b0 # bs) = None"
  by (simp only: utf8_decode.simps if_False if_True simp_thms)

declare utf8_decode.simps(2) [simp del]

lemma utf8_decode_ConsE [consumes 1, case_names one two three four]:
  assumes dec: "utf8_decode (b0 # bs) = Some cs"
  obtains
    (one) cs' where "b0 < 0x80" "utf8_decode bs = Some cs'" "cs = unat b0 # cs'"
  | (two) b1 r cs' where "0xC2 \<le> b0" "b0 \<le> 0xDF" "bs = b1 # r" "is_trail b1"
      "utf8_decode r = Some cs'" "cs = (low_bits 5 b0 * 64 + low_bits 6 b1) # cs'"
  | (three) b1 b2 r cs' where "0xE0 \<le> b0" "b0 \<le> 0xEF" "bs = b1 # b2 # r"
      "second_ok b0 b1" "is_trail b2" "utf8_decode r = Some cs'"
      "cs = (low_bits 4 b0 * 4096 + low_bits 6 b1 * 64 + low_bits 6 b2) # cs'"
  | (four) b1 b2 b3 r cs' where "0xF0 \<le> b0" "b0 \<le> 0xF4" "bs = b1 # b2 # b3 # r"
      "second_ok b0 b1" "is_trail b2" "is_trail b3" "utf8_decode r = Some cs'"
      "cs = (low_bits 3 b0 * 262144 + low_bits 6 b1 * 4096 + low_bits 6 b2 * 64
             + low_bits 6 b3) # cs'"
proof (cases "b0 < 0x80")
  case True
  with dec have "map_option ((#) (unat b0)) (utf8_decode bs) = Some cs"
    by (simp only: utf8_decode_one)
  then obtain cs' where "utf8_decode bs = Some cs'" "cs = unat b0 # cs'" by auto
  with True show thesis by (rule one)
next
  case n1: False
  show thesis
  proof (cases "0xC2 \<le> b0 \<and> b0 \<le> 0xDF")
    case True
    from dec utf8_decode_two [OF n1 True, of bs]
    obtain b1 r cs' where "bs = b1 # r" "is_trail b1" "utf8_decode r = Some cs'"
      "cs = (low_bits 5 b0 * 64 + low_bits 6 b1) # cs'"
      by (auto split: list.splits if_splits)
    with True show thesis using two by blast
  next
    case n2: False
    show thesis
    proof (cases "0xE0 \<le> b0 \<and> b0 \<le> 0xEF")
      case True
      from dec utf8_decode_three [OF n1 n2 True, of bs]
      obtain b1 b2 r cs' where "bs = b1 # b2 # r" "second_ok b0 b1" "is_trail b2"
        "utf8_decode r = Some cs'"
        "cs = (low_bits 4 b0 * 4096 + low_bits 6 b1 * 64 + low_bits 6 b2) # cs'"
        by (auto split: list.splits if_splits)
      with True show thesis using three by blast
    next
      case n3: False
      show thesis
      proof (cases "0xF0 \<le> b0 \<and> b0 \<le> 0xF4")
        case True
        from dec utf8_decode_four [OF n1 n2 n3 True, of bs]
        obtain b1 b2 b3 r cs' where "bs = b1 # b2 # b3 # r" "second_ok b0 b1" "is_trail b2"
          "is_trail b3" "utf8_decode r = Some cs'"
          "cs = (low_bits 3 b0 * 262144 + low_bits 6 b1 * 4096 + low_bits 6 b2 * 64
                 + low_bits 6 b3) # cs'"
          by (auto split: list.splits if_splits)
        with True show thesis using four by blast
      next
        case False
        with dec utf8_decode_other [OF n1 n2 n3, of bs] show thesis by simp
      qed
    qed
  qed
qed

lemma utf8_decode_induct [consumes 1, case_names Nil one two three four]:
  assumes dec: "utf8_decode bs = Some cs"
    and nil: "P [] []"
    and one: "\<And>b0 bs cs. b0 < 0x80 \<Longrightarrow> utf8_decode bs = Some cs \<Longrightarrow> P bs cs
                \<Longrightarrow> P (b0 # bs) (unat b0 # cs)"
    and two: "\<And>b0 b1 bs cs. 0xC2 \<le> b0 \<Longrightarrow> b0 \<le> 0xDF \<Longrightarrow> is_trail b1
                \<Longrightarrow> utf8_decode bs = Some cs \<Longrightarrow> P bs cs
                \<Longrightarrow> P (b0 # b1 # bs) ((low_bits 5 b0 * 64 + low_bits 6 b1) # cs)"
    and three: "\<And>b0 b1 b2 bs cs. 0xE0 \<le> b0 \<Longrightarrow> b0 \<le> 0xEF \<Longrightarrow> second_ok b0 b1
                \<Longrightarrow> is_trail b2 \<Longrightarrow> utf8_decode bs = Some cs \<Longrightarrow> P bs cs
                \<Longrightarrow> P (b0 # b1 # b2 # bs)
                      ((low_bits 4 b0 * 4096 + low_bits 6 b1 * 64 + low_bits 6 b2) # cs)"
    and four: "\<And>b0 b1 b2 b3 bs cs. 0xF0 \<le> b0 \<Longrightarrow> b0 \<le> 0xF4 \<Longrightarrow> second_ok b0 b1
                \<Longrightarrow> is_trail b2 \<Longrightarrow> is_trail b3 \<Longrightarrow> utf8_decode bs = Some cs \<Longrightarrow> P bs cs
                \<Longrightarrow> P (b0 # b1 # b2 # b3 # bs)
                      ((low_bits 3 b0 * 262144 + low_bits 6 b1 * 4096 + low_bits 6 b2 * 64
                        + low_bits 6 b3) # cs)"
  shows "P bs cs"
  using dec
proof (induction "length bs" arbitrary: bs cs rule: less_induct)
  case less
  show ?case
  proof (cases bs)
    case Nil
    with less.prems nil show ?thesis by simp
  next
    case (Cons b0 bs')
    with less.prems have d: "utf8_decode (b0 # bs') = Some cs" by simp
    from d show ?thesis
    proof (cases rule: utf8_decode_ConsE)
      case (one cs')
      with less.hyps [of bs' cs'] Cons show ?thesis by (simp add: assms(3))
    next
      case (two b1 r cs')
      with less.hyps [of r cs'] Cons show ?thesis by (simp add: assms(4))
    next
      case (three b1 b2 r cs')
      with less.hyps [of r cs'] Cons show ?thesis by (simp add: assms(5))
    next
      case (four b1 b2 b3 r cs')
      with less.hyps [of r cs'] Cons show ?thesis by (simp add: assms(6))
    qed
  qed
qed

lemma utf16_encode1_nonempty: "utf16_encode1 c \<noteq> []"
  by (simp add: utf16_encode1_def)

lemma length_utf16_encode1_le: "length (utf16_encode1 c) \<le> 2"
  by (simp add: utf16_encode1_def)

lemma utf16_encode1_ascii: "b < 0x80 \<Longrightarrow> utf16_encode1 (unat b) = [ucast (b :: utf8_char)]"
  by (simp add: utf16_encode1_def word_less_nat_alt)

lemma utf8_decode_length:
  "utf8_decode bs = Some cs \<Longrightarrow> length (utf16_encode cs) \<le> length bs"
proof (induction rule: utf8_decode_induct)
  case Nil
  show ?case by (simp add: utf16_encode_Nil)
next
  case (one b0 bs cs)
  then show ?case by (simp add: utf16_encode_Cons utf16_encode1_ascii)
next
  case (two b0 b1 bs cs)
  with length_utf16_encode1_le [of "low_bits 5 b0 * 64 + low_bits 6 b1"]
  show ?case by (simp add: utf16_encode_Cons)
next
  case (three b0 b1 b2 bs cs)
  with length_utf16_encode1_le [of "low_bits 4 b0 * 4096 + low_bits 6 b1 * 64 + low_bits 6 b2"]
  show ?case by (simp add: utf16_encode_Cons)
next
  case (four b0 b1 b2 b3 bs cs)
  with length_utf16_encode1_le [of "low_bits 3 b0 * 262144 + low_bits 6 b1 * 4096 + low_bits 6 b2 * 64 + low_bits 6 b3"]
  show ?case by (simp add: utf16_encode_Cons)
qed

lemma utf8_decode_nonempty:
  assumes "utf8_decode bs = Some cs" and "bs \<noteq> []"
  shows "utf16_encode cs \<noteq> []"
proof -
  from assms(2) obtain b0 bs' where bs: "bs = b0 # bs'" by (cases bs) auto
  with assms(1) have "utf8_decode (b0 # bs') = Some cs" by simp
  then obtain c cs' where "cs = c # cs'" by (cases rule: utf8_decode_ConsE) auto
  then show ?thesis by (simp add: utf16_encode_Cons utf16_encode1_nonempty)
qed

subsection \<open>Decoded values are scalar values and encode to well-formed UTF-16\<close>

lemma three_low: "a \<le> 12 \<Longrightarrow> b < 64 \<Longrightarrow> c < 64 \<Longrightarrow> a * 4096 + b * 64 + c < (0xD800::nat)"
  by linarith

lemma three_ed: "a = 13 \<Longrightarrow> b < 32 \<Longrightarrow> c < 64 \<Longrightarrow> a * 4096 + b * 64 + c < (0xD800::nat)"
  by linarith

lemma three_high: "14 \<le> a \<Longrightarrow> a \<le> 15 \<Longrightarrow> b < 64 \<Longrightarrow> c < 64 \<Longrightarrow>
   0xDFFF < a * 4096 + b * 64 + c \<and> a * 4096 + b * 64 + c < (0x110000::nat)"
  by linarith

lemma four_bounds:
  "(a = 0 \<and> 16 \<le> b) \<or> (1 \<le> a \<and> a \<le> 3) \<or> (a = 4 \<and> b < 16) \<Longrightarrow> b < 64 \<Longrightarrow> c < 64 \<Longrightarrow> d < 64 \<Longrightarrow>
   0x10000 \<le> a * 262144 + b * 4096 + c * 64 + d \<and> a * 262144 + b * 4096 + c * 64 + d < (0x110000::nat)"
  by linarith

lemma two_bound: "a < 32 \<Longrightarrow> b < 64 \<Longrightarrow> a * 64 + b < (0xD800 :: nat)"
  by linarith

lemma low_bits_less: "low_bits k b < 2 ^ k"
  by (simp add: low_bits_def)

lemma scalar_one: "b0 < (0x80 :: utf8_char) \<Longrightarrow> is_scalar (unat b0)"
  by (simp add: is_scalar_def word_less_nat_alt)

lemma scalar_two: "is_scalar (low_bits 5 b0 * 64 + low_bits 6 b1)"
  using two_bound [OF low_bits_less [of 5 b0, simplified] low_bits_less [of 6 b1, simplified]]
  by (simp add: is_scalar_def)

lemma mod_in_range:
  fixes n :: nat
  assumes "q * m \<le> n" "n < q * m + m"
  shows "n mod m = n - q * m"
proof -
  from assms(1) obtain k where k: "n = q * m + k" using le_Suc_ex by blast
  with assms(2) have "k < m" by simp
  with k show ?thesis by simp
qed

lemma mod16_range: "224 \<le> (n::nat) \<Longrightarrow> n \<le> 239 \<Longrightarrow> n mod 16 = n - 224"
  using mod_in_range [of 14 16 n] by simp

lemma mod8_range: "240 \<le> (n::nat) \<Longrightarrow> n \<le> 244 \<Longrightarrow> n mod 8 = n - 240"
  using mod_in_range [of 30 8 n] by simp

lemma mod64_range: "128 \<le> (n::nat) \<Longrightarrow> n \<le> 191 \<Longrightarrow> n mod 64 = n - 128"
  using mod_in_range [of 2 64 n] by simp

lemma scalar_three:
  assumes "0xE0 \<le> b0" "b0 \<le> 0xEF" "second_ok b0 b1" "is_trail b2"
  shows "is_scalar (low_bits 4 b0 * 4096 + low_bits 6 b1 * 64 + low_bits 6 b2)"
proof -
  have b2: "low_bits 6 b2 < 64" using low_bits_less [of 6 b2] by simp
  have b1: "low_bits 6 b1 < 64" using low_bits_less [of 6 b1] by simp
  from assms(1,2) have r0: "224 \<le> unat b0" "unat b0 \<le> 239"
    by (simp_all add: word_le_nat_alt)
  then have l0: "low_bits 4 b0 = unat b0 - 224"
    by (simp add: low_bits_def mod16_range)
  show ?thesis
  proof (cases "b0 = 0xED")
    case True
    with assms(3) have "128 \<le> unat b1" "unat b1 \<le> 159"
      by (simp_all add: second_ok_def word_le_nat_alt)
    then have "low_bits 6 b1 < 32" by (simp add: low_bits_def mod64_range)
    moreover from True have "low_bits 4 b0 = 13" by (simp add: low_bits_def)
    ultimately show ?thesis using b2 three_ed by (simp add: is_scalar_def)
  next
    case False
    then have "unat b0 \<noteq> 237" by (simp add: word_unat_eq_iff)
    with r0 l0 have "low_bits 4 b0 \<le> 12 \<or> (14 \<le> low_bits 4 b0 \<and> low_bits 4 b0 \<le> 15)"
      by linarith
    then show ?thesis
    proof
      assume "low_bits 4 b0 \<le> 12"
      from three_low [OF this b1 b2] show ?thesis by (simp add: is_scalar_def)
    next
      assume "14 \<le> low_bits 4 b0 \<and> low_bits 4 b0 \<le> 15"
      then have "14 \<le> low_bits 4 b0" "low_bits 4 b0 \<le> 15" by simp_all
      from three_high [OF this b1 b2] show ?thesis by (simp add: is_scalar_def)
    qed
  qed
qed

lemma scalar_four:
  assumes "0xF0 \<le> b0" "b0 \<le> 0xF4" "second_ok b0 b1"
  shows "is_scalar (low_bits 3 b0 * 262144 + low_bits 6 b1 * 4096 + low_bits 6 b2 * 64
                    + low_bits 6 b3)"
proof -
  have b3: "low_bits 6 b3 < 64" using low_bits_less [of 6 b3] by simp
  have b2: "low_bits 6 b2 < 64" using low_bits_less [of 6 b2] by simp
  have b1: "low_bits 6 b1 < 64" using low_bits_less [of 6 b1] by simp
  from assms(1,2) have r0: "240 \<le> unat b0" "unat b0 \<le> 244"
    by (simp_all add: word_le_nat_alt)
  then have l0: "low_bits 3 b0 = unat b0 - 240"
    by (simp add: low_bits_def mod8_range)
  have "(low_bits 3 b0 = 0 \<and> 16 \<le> low_bits 6 b1)
      \<or> (1 \<le> low_bits 3 b0 \<and> low_bits 3 b0 \<le> 3)
      \<or> (low_bits 3 b0 = 4 \<and> low_bits 6 b1 < 16)"
  proof (cases "b0 = 0xF0")
    case True
    with assms(3) have "144 \<le> unat b1" "unat b1 \<le> 191"
      by (simp_all add: second_ok_def word_le_nat_alt)
    then have "16 \<le> low_bits 6 b1" by (simp add: low_bits_def mod64_range)
    moreover from True have "low_bits 3 b0 = 0" by (simp add: low_bits_def)
    ultimately show ?thesis by simp
  next
    case nF0: False
    show ?thesis
    proof (cases "b0 = 0xF4")
      case True
      with assms(3) have "128 \<le> unat b1" "unat b1 \<le> 143"
        by (simp_all add: second_ok_def word_le_nat_alt)
      then have "low_bits 6 b1 < 16" by (simp add: low_bits_def mod64_range)
      moreover from True have "low_bits 3 b0 = 4" by (simp add: low_bits_def)
      ultimately show ?thesis by simp
    next
      case False
      from nF0 have "unat b0 \<noteq> 240" by (simp add: word_unat_eq_iff)
      moreover from False have "unat b0 \<noteq> 244" by (simp add: word_unat_eq_iff)
      ultimately show ?thesis using r0 l0 by linarith
    qed
  qed
  from four_bounds [OF this b1 b2 b3] show ?thesis by (simp add: is_scalar_def)
qed

lemma utf8_decode_scalars:
  "utf8_decode bs = Some cs \<Longrightarrow> list_all is_scalar cs"
  by (induction rule: utf8_decode_induct)
     (simp_all add: scalar_one scalar_two scalar_three scalar_four)

lemma unat_of_nat16: "n < 65536 \<Longrightarrow> unat (of_nat n :: wchar_t) = n"
  by (simp add: unat_of_nat)

lemma utf16_encode1_bmp:
  assumes "c < 0xD800 \<or> (0xDFFF < c \<and> c < 0x10000)"
  shows "\<exists>w. utf16_encode1 c = [w] \<and> (w < 0xD800 \<or> 0xDFFF < w)"
proof -
  from assms have c: "c < 65536" by linarith
  then have "unat (of_nat c :: wchar_t) = c" by (rule unat_of_nat16)
  with assms have "(of_nat c :: wchar_t) < 0xD800 \<or> 0xDFFF < (of_nat c :: wchar_t)"
    by (auto simp add: word_less_nat_alt)
  with c show ?thesis by (simp add: utf16_encode1_def)
qed

lemma utf16_encode1_pair:
  assumes "0x10000 \<le> c" "c < 0x110000"
  shows "\<exists>hi lo. utf16_encode1 c = [hi, lo] \<and> 0xD800 \<le> hi \<and> hi \<le> 0xDBFF
           \<and> 0xDC00 \<le> lo \<and> lo \<le> 0xDFFF"
proof -
  let ?h = "0xD800 + (c - 0x10000) div 0x400"
  let ?l = "0xDC00 + (c - 0x10000) mod 0x400"
  from assms have d: "(c - 0x10000) div 0x400 < 0x400" by simp
  have m: "(c - 0x10000) mod 0x400 < 0x400" by simp
  from d have h: "0xD800 \<le> ?h" "?h \<le> 0xDBFF" by simp_all
  from m have l: "0xDC00 \<le> ?l" "?l \<le> 0xDFFF" by simp_all
  from h have uh: "unat (of_nat ?h :: wchar_t) = ?h" by (intro unat_of_nat16) simp
  from l have ul: "unat (of_nat ?l :: wchar_t) = ?l" by (intro unat_of_nat16) simp
  have "0xD800 \<le> (of_nat ?h :: wchar_t)" "(of_nat ?h :: wchar_t) \<le> 0xDBFF"
    using h unfolding word_le_nat_alt uh by simp_all
  moreover have "0xDC00 \<le> (of_nat ?l :: wchar_t)" "(of_nat ?l :: wchar_t) \<le> 0xDFFF"
    using l unfolding word_le_nat_alt ul by simp_all
  moreover from assms have "utf16_encode1 c = [of_nat ?h, of_nat ?l]"
    by (simp add: utf16_encode1_def)
  ultimately show ?thesis by blast
qed

lemma utf16_well_formed_single:
  "w < 0xD800 \<or> 0xDFFF < w \<Longrightarrow> utf16_well_formed (w # ws) = utf16_well_formed ws"
  by (cases ws) auto

lemma utf16_well_formed_pair:
  "0xD800 \<le> hi \<Longrightarrow> hi \<le> 0xDBFF \<Longrightarrow> 0xDC00 \<le> lo \<Longrightarrow> lo \<le> 0xDFFF \<Longrightarrow>
   utf16_well_formed (hi # lo # ws) = utf16_well_formed ws"
  by (auto simp add: word_le_nat_alt word_less_nat_alt)

lemma utf16_well_formed_encode1:
  assumes "is_scalar c"
  shows "utf16_well_formed (utf16_encode1 c @ ws) = utf16_well_formed ws"
proof (cases "c < 0x10000")
  case True
  with assms have "c < 0xD800 \<or> (0xDFFF < c \<and> c < 0x10000)" by (simp add: is_scalar_def)
  from utf16_encode1_bmp [OF this] show ?thesis
    by (auto simp add: utf16_well_formed_single simp del: utf16_well_formed.simps)
next
  case False
  with assms have "0x10000 \<le> c" "c < 0x110000" by (simp_all add: is_scalar_def)
  from utf16_encode1_pair [OF this] show ?thesis
    by (auto simp add: utf16_well_formed_pair simp del: utf16_well_formed.simps)
qed

lemma utf16_well_formed_encode:
  "list_all is_scalar cs \<Longrightarrow> utf16_well_formed (utf16_encode cs)"
  by (induction cs) (simp_all add: utf16_encode_Nil utf16_encode_Cons utf16_well_formed_encode1)

lemma utf8_decode_ascii:
  "list_all is_ascii bs \<Longrightarrow> utf8_decode bs = Some (map unat bs)"
  by (induction bs) (simp_all add: is_ascii_def utf8_decode_one)

lemma utf16_encode_ascii:
  "list_all is_ascii bs \<Longrightarrow> utf16_encode (map unat bs) = map ucast bs"
  by (induction bs) (simp_all add: is_ascii_def utf16_encode_Nil utf16_encode_Cons utf16_encode1_ascii)

subsection \<open>The function on the reference primitive\<close>

lemma strict_measure:
  assumes "utf8 \<noteq> []" "length utf8 \<le> INT_MAX"
  shows "strict_MultiByteToWideChar CP_UTF8 MB_ERR_INVALID_CHARS utf8 (of_nat (length utf8))
           None 0 err =
         (case utf8_decode utf8 of
            None \<Rightarrow> ((0, []), ERROR_NO_UNICODE_TRANSLATION)
          | Some cs \<Rightarrow> ((of_nat (length (utf16_encode cs)), []), err))"
proof -
  from assms have n: "0 < length utf8" "length utf8 < 2 ^ 31" by (simp_all add: INT_MAX_def)
  then have "sint (of_nat (length utf8) :: c_int) = int (length utf8)"
    by (simp add: sint_of_nat_int)
  with n show ?thesis
    by (simp add: strict_MultiByteToWideChar_def split: option.splits)
qed

lemma strict_fill:
  assumes "utf8 \<noteq> []" "length utf8 \<le> INT_MAX" "utf8_decode utf8 = Some cs"
  shows "strict_MultiByteToWideChar CP_UTF8 MB_ERR_INVALID_CHARS utf8 (of_nat (length utf8))
           (Some buf) (of_nat (length (utf16_encode cs))) err =
         ((of_nat (length (utf16_encode cs)), utf16_encode cs), err)"
proof -
  from assms have n: "0 < length utf8" "length utf8 < 2 ^ 31" by (simp_all add: INT_MAX_def)
  then have s: "sint (of_nat (length utf8) :: c_int) = int (length utf8)"
    by (simp add: sint_of_nat_int)
  from utf8_decode_length [OF assms(3)] utf8_decode_nonempty [OF assms(3,1)] n
  have m: "0 < length (utf16_encode cs)" "length (utf16_encode cs) < 2 ^ 31" by simp_all
  then have t: "sint (of_nat (length (utf16_encode cs)) :: c_int) = int (length (utf16_encode cs))"
    by (simp add: sint_of_nat_int)
  from m have z: "(of_nat (length (utf16_encode cs)) :: c_int) \<noteq> 0"
    by (rule of_nat_int_nonzero)
  from n s t z assms(3) show ?thesis
    by (simp add: strict_MultiByteToWideChar_def Let_def)
qed

lemma convert_invalid:
  assumes "utf8 \<noteq> []" "length utf8 \<le> INT_MAX" "utf8_decode utf8 = None"
  shows "convert utf8 err =
     (Inl (Utf16FromUtf8ConversionError msg_invalid_utf8 ERROR_NO_UNICODE_TRANSLATION),
      [call_MultiByteToWideChar CP_UTF8 MB_ERR_INVALID_CHARS utf8 (of_nat (length utf8)) None 0,
       call_GetLastError],
      ERROR_NO_UNICODE_TRANSLATION)"
proof -
  from strict_measure [OF assms(1,2), of err] assms(3)
  have "measurement_phase strict_win32 utf8 err = Some ((0, []), ERROR_NO_UNICODE_TRANSLATION)"
    using assms(1,2) by (simp add: measurement_phase_def strict_win32_def)
  from Utf16FromUtf8_measure_zero [OF this] show ?thesis
    by (simp add: convert_def strict_win32_def)
qed

lemma convert_valid:
  assumes "utf8 \<noteq> []" "length utf8 \<le> INT_MAX" "utf8_decode utf8 = Some cs"
  shows "convert utf8 err =
     (Inr (utf16_encode cs),
      [call_MultiByteToWideChar CP_UTF8 MB_ERR_INVALID_CHARS utf8 (of_nat (length utf8)) None 0,
       call_MultiByteToWideChar CP_UTF8 MB_ERR_INVALID_CHARS utf8 (of_nat (length utf8))
         (Some (replicate (length (utf16_encode cs)) 0)) (of_nat (length (utf16_encode cs)))],
      err)"
proof -
  from assms have n: "length utf8 < 2 ^ 31" by (simp add: INT_MAX_def)
  from utf8_decode_length [OF assms(3)] utf8_decode_nonempty [OF assms(3,1)] n
  have m: "0 < length (utf16_encode cs)" "length (utf16_encode cs) < 2 ^ 31" by simp_all
  then have t: "sint (of_nat (length (utf16_encode cs)) :: c_int) = int (length (utf16_encode cs))"
    by (simp add: sint_of_nat_int)
  from m have z: "(of_nat (length (utf16_encode cs)) :: c_int) \<noteq> 0"
    by (rule of_nat_int_nonzero)
  have st: "store_wchars (replicate (length (utf16_encode cs)) 0) (utf16_encode cs) = utf16_encode cs"
    by (rule store_wchars_exact) simp
  from assms(1,2) t z st show ?thesis
    by (simp add: convert_def Utf16FromUtf8_def strict_win32_def Let_def
        strict_measure [OF assms(1,2)] strict_fill [OF assms] assms(3))
qed

lemma convert_state_independent:
  "fst (convert utf8 err) = fst (convert utf8 err')
   \<and> fst (snd (convert utf8 err)) = fst (snd (convert utf8 err'))"
proof (cases "utf8 = [] \<or> INT_MAX < length utf8")
  case True
  then show ?thesis by (auto simp add: convert_def Utf16FromUtf8_def)
next
  case False
  then have ne: "utf8 \<noteq> []" and le: "length utf8 \<le> INT_MAX" by simp_all
  show ?thesis
  proof (cases "utf8_decode utf8")
    case None
    from convert_invalid [OF ne le None] show ?thesis by simp
  next
    case (Some cs)
    from convert_valid [OF ne le Some] show ?thesis by simp
  qed
qed

text \<open>The reference primitive keeps the contract of a count that is not negative.\<close>

lemma strict_win32_count_not_negative: "count_not_negative strict_win32 utf8 err"
proof (cases "utf8 = [] \<or> INT_MAX < length utf8")
  case True
  then show ?thesis by (auto simp add: count_not_negative_def measurement_phase_def)
next
  case False
  then have ne: "utf8 \<noteq> []" and le: "length utf8 \<le> INT_MAX" by simp_all
  show ?thesis
  proof (cases "utf8_decode utf8")
    case None
    with ne le strict_measure [OF ne le, of err] show ?thesis
      by (simp add: count_not_negative_def measurement_phase_def strict_win32_def)
  next
    case (Some cs)
    from utf8_decode_length [OF Some] le have "length (utf16_encode cs) < 2 ^ 31"
      by (simp add: INT_MAX_def)
    then have "sint (of_nat (length (utf16_encode cs)) :: c_int) = int (length (utf16_encode cs))"
      by (rule sint_of_nat_int)
    with Some ne le strict_measure [OF ne le, of err] show ?thesis
      by (simp add: count_not_negative_def measurement_phase_def strict_win32_def)
  qed
qed

section \<open>The claims\<close>

subsection \<open>For any behaviour of the Win32 functions\<close>

text \<open>
  C4. Applied to the empty byte sequence, the function returns the empty UTF-16 sequence
  and never an exception, and it does so without calling any conversion primitive: the
  list of Win32 calls is empty and the state is the one it was given, whatever the Win32
  functions would have done.
\<close>

theorem C4_empty_input:
  "Utf16FromUtf8 api [] s = (Inr [], [], s)"
  by (simp add: Utf16FromUtf8_def)

text \<open>
  C1. For every non-empty input, if the measurement phase reports zero code units, the
  function fails with a \<open>Utf16FromUtf8ConversionError\<close> that carries the last-error
  code read after the call: with the message of an invalid UTF-8 sequence (the spec's
  \<open>InvalidUtf8Sequence\<close>) when that code is \<open>ERROR_NO_UNICODE_TRANSLATION\<close>, and with
  the message of a failed length query (the spec's \<open>MeasurementFailed\<close>) for any other
  code.
\<close>

theorem C1_measurement_failure:
  assumes "utf8 \<noteq> []"
    and "measurement_phase api utf8 s = Some ((0, ws), s1)"
  shows "\<exists>e. fst (Utf16FromUtf8 api utf8 s) = Inl e
           \<and> e = Utf16FromUtf8ConversionError
                  (if GetLastError api s1 = ERROR_NO_UNICODE_TRANSLATION then msg_invalid_utf8
                   else msg_cannot_get_length)
                  (GetLastError api s1)
           \<and> spec_ErrorKind e =
               Some (if GetLastError api s1 = ERROR_NO_UNICODE_TRANSLATION
                     then InvalidUtf8Sequence else MeasurementFailed)
           \<and> ErrorCode e = Some (GetLastError api s1)"
  using Utf16FromUtf8_measure_zero [OF assms(2)] by (simp add: spec_ErrorKind_simps)

text \<open>
  The theorem at the byte \<open>0xFF\<close> on the reference primitive (invalid sequence) and at
  the byte \<open>0x41\<close> on a primitive scripted to fail the measuring call with
  \<open>ERROR_INSUFFICIENT_BUFFER\<close> (any other diagnostic).
\<close>

theorem C1_measurement_failure_witness:
  "[0xFF :: utf8_char] \<noteq> []
   \<and> measurement_phase strict_win32 [0xFF] 0 = Some ((0, []), ERROR_NO_UNICODE_TRANSLATION)
   \<and> (\<exists>e. fst (Utf16FromUtf8 strict_win32 [0xFF] 0) = Inl e
          \<and> e = Utf16FromUtf8ConversionError msg_invalid_utf8 ERROR_NO_UNICODE_TRANSLATION
          \<and> spec_ErrorKind e = Some InvalidUtf8Sequence
          \<and> ErrorCode e = Some ERROR_NO_UNICODE_TRANSLATION)
   \<and> [0x41 :: utf8_char] \<noteq> []
   \<and> measurement_phase (scripted_win32 0 0 ERROR_INSUFFICIENT_BUFFER) [0x41] 0
       = Some ((0, []), ERROR_INSUFFICIENT_BUFFER)
   \<and> (\<exists>e. fst (Utf16FromUtf8 (scripted_win32 0 0 ERROR_INSUFFICIENT_BUFFER) [0x41] 0) = Inl e
          \<and> e = Utf16FromUtf8ConversionError msg_cannot_get_length ERROR_INSUFFICIENT_BUFFER
          \<and> spec_ErrorKind e = Some MeasurementFailed
          \<and> ErrorCode e = Some ERROR_INSUFFICIENT_BUFFER)"
proof -
  have n1: "[0xFF :: utf8_char] \<noteq> []" and n2: "[0x41 :: utf8_char] \<noteq> []" by simp_all
  have m1: "measurement_phase strict_win32 [0xFF] 0
              = Some ((0, []), ERROR_NO_UNICODE_TRANSLATION)"
    by (simp add: measurement_phase_def strict_win32_def strict_MultiByteToWideChar_def
        INT_MAX_def utf8_decode.simps)
  have m2: "measurement_phase (scripted_win32 0 0 ERROR_INSUFFICIENT_BUFFER) [0x41] 0
              = Some ((0, []), ERROR_INSUFFICIENT_BUFFER)"
    by (simp add: measurement_phase_def scripted_win32_def INT_MAX_def)
  have d: "ERROR_INSUFFICIENT_BUFFER \<noteq> ERROR_NO_UNICODE_TRANSLATION"
    by (simp add: ERROR_INSUFFICIENT_BUFFER_def ERROR_NO_UNICODE_TRANSLATION_def)
  from C1_measurement_failure [OF n1 m1] C1_measurement_failure [OF n2 m2] n1 n2 m1 m2 d
  show ?thesis by (simp add: strict_win32_def scripted_win32_def)
qed

text \<open>
  C3. For every input longer than \<open>2^31 - 1\<close> bytes, the largest value of the 32-bit
  signed \<open>int\<close> that \<open>MultiByteToWideChar\<close> takes, the function fails with
  \<open>std::overflow_error\<close> (the spec's \<open>InputTooLarge\<close>); it makes no Win32 call, so no
  decode is attempted, and the exception has no diagnostic code.
\<close>

theorem C3_input_too_large:
  assumes "2 ^ 31 - 1 < length utf8"
  shows "Utf16FromUtf8 api utf8 s = (Inl (overflow_error msg_too_long), [], s)
         \<and> spec_ErrorKind (overflow_error msg_too_long) = Some InputTooLarge
         \<and> ErrorCode (overflow_error msg_too_long) = None"
  using assms by (simp add: Utf16FromUtf8_too_long INT_MAX_def spec_ErrorKind_simps)

text \<open>
  The theorem at an input of \<open>2^31\<close> space characters.
\<close>

theorem C3_input_too_large_witness:
  "2 ^ 31 - 1 < length (replicate (2 ^ 31) (0x20 :: utf8_char))
   \<and> Utf16FromUtf8 strict_win32 (replicate (2 ^ 31) 0x20) 0
       = (Inl (overflow_error msg_too_long), [], 0)
   \<and> spec_ErrorKind (overflow_error msg_too_long) = Some InputTooLarge
   \<and> ErrorCode (overflow_error msg_too_long) = None"
proof -
  have h: "2 ^ 31 - 1 < length (replicate (2 ^ 31) (0x20 :: utf8_char))" by simp
  from C3_input_too_large [OF h, of strict_win32 0] h show ?thesis by simp
qed

text \<open>
  C7. If the measurement phase succeeds and the fill phase then reports zero, the function
  fails with a \<open>Utf16FromUtf8ConversionError\<close> that carries the last-error code read
  after the filling call, classified as in the measurement phase except for the second
  message: an invalid UTF-8 sequence (\<open>InvalidUtf8Sequence\<close>) when the code is
  \<open>ERROR_NO_UNICODE_TRANSLATION\<close>, a failed conversion (\<open>ConversionFailed\<close>) for any
  other code.
\<close>

theorem C7_fill_failure:
  assumes "fill_phase api utf8 s = Some ((0, ws), s2)"
  shows "\<exists>e. fst (Utf16FromUtf8 api utf8 s) = Inl e
           \<and> e = Utf16FromUtf8ConversionError
                  (if GetLastError api s2 = ERROR_NO_UNICODE_TRANSLATION then msg_invalid_utf8
                   else msg_cannot_convert)
                  (GetLastError api s2)
           \<and> spec_ErrorKind e =
               Some (if GetLastError api s2 = ERROR_NO_UNICODE_TRANSLATION
                     then InvalidUtf8Sequence else ConversionFailed)
           \<and> ErrorCode e = Some (GetLastError api s2)"
  using Utf16FromUtf8_fill_zero [OF assms] by (simp add: spec_ErrorKind_simps)

text \<open>
  The theorem on a primitive scripted to measure one code unit and then to fail the
  filling call, once with \<open>ERROR_INSUFFICIENT_BUFFER\<close> and once with
  \<open>ERROR_NO_UNICODE_TRANSLATION\<close>.
\<close>

theorem C7_fill_failure_witness:
  "fill_phase (scripted_win32 1 0 ERROR_INSUFFICIENT_BUFFER) [0x41] 0
     = Some ((0, []), ERROR_INSUFFICIENT_BUFFER)
   \<and> (\<exists>e. fst (Utf16FromUtf8 (scripted_win32 1 0 ERROR_INSUFFICIENT_BUFFER) [0x41] 0) = Inl e
          \<and> e = Utf16FromUtf8ConversionError msg_cannot_convert ERROR_INSUFFICIENT_BUFFER
          \<and> spec_ErrorKind e = Some ConversionFailed
          \<and> ErrorCode e = Some ERROR_INSUFFICIENT_BUFFER)
   \<and> fill_phase (scripted_win32 1 0 ERROR_NO_UNICODE_TRANSLATION) [0x41] 0
     = Some ((0, []), ERROR_NO_UNICODE_TRANSLATION)
   \<and> (\<exists>e. fst (Utf16FromUtf8 (scripted_win32 1 0 ERROR_NO_UNICODE_TRANSLATION) [0x41] 0) = Inl e
          \<and> e = Utf16FromUtf8ConversionError msg_invalid_utf8 ERROR_NO_UNICODE_TRANSLATION
          \<and> spec_ErrorKind e = Some InvalidUtf8Sequence
          \<and> ErrorCode e = Some ERROR_NO_UNICODE_TRANSLATION)"
proof -
  have f1: "fill_phase (scripted_win32 1 0 ERROR_INSUFFICIENT_BUFFER) [0x41] 0
              = Some ((0, []), ERROR_INSUFFICIENT_BUFFER)"
    by (simp add: fill_phase_def measurement_phase_def scripted_win32_def INT_MAX_def)
  have f2: "fill_phase (scripted_win32 1 0 ERROR_NO_UNICODE_TRANSLATION) [0x41] 0
              = Some ((0, []), ERROR_NO_UNICODE_TRANSLATION)"
    by (simp add: fill_phase_def measurement_phase_def scripted_win32_def INT_MAX_def)
  have d: "ERROR_INSUFFICIENT_BUFFER \<noteq> ERROR_NO_UNICODE_TRANSLATION"
    by (simp add: ERROR_INSUFFICIENT_BUFFER_def ERROR_NO_UNICODE_TRANSLATION_def)
  from C7_fill_failure [OF f1] C7_fill_failure [OF f2] f1 f2 d
  show ?thesis by (simp add: scripted_win32_def)
qed

text \<open>
  C10. The failure on an input that is too long is a \<open>std::overflow_error\<close>: a handler
  for \<open>std::overflow_error\<close> takes it, a handler for \<open>Utf16FromUtf8ConversionError\<close>
  does not, and it has no diagnostic code. Every other failure of the function, for Win32
  functions that keep to their contract of never returning a negative count, is taken by
  a handler for \<open>Utf16FromUtf8ConversionError\<close>, and its \<open>ErrorCode()\<close> is the
  last-error code of the state in which the function failed.
\<close>

theorem C10_exception_classes:
  "(INT_MAX < length utf8 \<longrightarrow>
      fst (Utf16FromUtf8 api utf8 s) = Inl (overflow_error msg_too_long)
      \<and> catches catch_overflow_error (overflow_error msg_too_long)
      \<and> \<not> catches catch_Utf16FromUtf8ConversionError (overflow_error msg_too_long)
      \<and> ErrorCode (overflow_error msg_too_long) = None)
   \<and> (\<forall>e. length utf8 \<le> INT_MAX \<and> fst (Utf16FromUtf8 api utf8 s) = Inl e
          \<and> count_not_negative api utf8 s \<longrightarrow>
        catches catch_Utf16FromUtf8ConversionError e
        \<and> ErrorCode e = Some (GetLastError api (snd (snd (Utf16FromUtf8 api utf8 s)))))"
proof (intro conjI impI allI)
  assume "INT_MAX < length utf8"
  then show "fst (Utf16FromUtf8 api utf8 s) = Inl (overflow_error msg_too_long)"
    by (simp add: Utf16FromUtf8_too_long)
next
  show "catches catch_overflow_error (overflow_error msg_too_long)" by simp
next
  show "\<not> catches catch_Utf16FromUtf8ConversionError (overflow_error msg_too_long)" by simp
next
  show "ErrorCode (overflow_error msg_too_long) = None" by simp
next
  fix e
  assume a: "length utf8 \<le> INT_MAX \<and> fst (Utf16FromUtf8 api utf8 s) = Inl e
          \<and> count_not_negative api utf8 s"
  then show "catches catch_Utf16FromUtf8ConversionError e"
    by (auto simp add: Utf16FromUtf8_def count_not_negative_def measurement_phase_def Let_def
        split: if_splits prod.splits)
next
  fix e
  assume a: "length utf8 \<le> INT_MAX \<and> fst (Utf16FromUtf8 api utf8 s) = Inl e
          \<and> count_not_negative api utf8 s"
  then show "ErrorCode e = Some (GetLastError api (snd (snd (Utf16FromUtf8 api utf8 s))))"
    by (auto simp add: Utf16FromUtf8_def count_not_negative_def measurement_phase_def Let_def
        split: if_splits prod.splits)
qed

text \<open>
  The theorem at an input of \<open>2^31\<close> space characters and at the byte \<open>0xFF\<close>, on
  the reference primitive.
\<close>

theorem C10_exception_classes_witness:
  "INT_MAX < length (replicate (2 ^ 31) (0x20 :: utf8_char))
   \<and> fst (Utf16FromUtf8 strict_win32 (replicate (2 ^ 31) 0x20) 0)
       = Inl (overflow_error msg_too_long)
   \<and> \<not> catches catch_Utf16FromUtf8ConversionError (overflow_error msg_too_long)
   \<and> length [0xFF :: utf8_char] \<le> INT_MAX
   \<and> fst (Utf16FromUtf8 strict_win32 [0xFF] 0)
       = Inl (Utf16FromUtf8ConversionError msg_invalid_utf8 ERROR_NO_UNICODE_TRANSLATION)
   \<and> count_not_negative strict_win32 [0xFF] 0
   \<and> catches catch_Utf16FromUtf8ConversionError
         (Utf16FromUtf8ConversionError msg_invalid_utf8 ERROR_NO_UNICODE_TRANSLATION)
   \<and> ErrorCode (Utf16FromUtf8ConversionError msg_invalid_utf8 ERROR_NO_UNICODE_TRANSLATION)
       = Some (GetLastError strict_win32 (snd (snd (Utf16FromUtf8 strict_win32 [0xFF] 0))))"
proof -
  have big: "INT_MAX < length (replicate (2 ^ 31) (0x20 :: utf8_char))"
    by (simp add: INT_MAX_def)
  have small: "length [0xFF :: utf8_char] \<le> INT_MAX" by (simp add: INT_MAX_def)
  have d: "utf8_decode [0xFF] = None" by (simp add: utf8_decode.simps)
  have r: "Utf16FromUtf8 strict_win32 [0xFF] 0
           = (Inl (Utf16FromUtf8ConversionError msg_invalid_utf8 ERROR_NO_UNICODE_TRANSLATION),
              [call_MultiByteToWideChar CP_UTF8 MB_ERR_INVALID_CHARS [0xFF]
                 (of_nat (length [0xFF :: utf8_char])) None 0,
               call_GetLastError],
              ERROR_NO_UNICODE_TRANSLATION)"
    using convert_invalid [OF _ small d, of 0] by (simp add: convert_def)
  have c: "count_not_negative strict_win32 [0xFF] 0"
    using d by (simp add: count_not_negative_def measurement_phase_def strict_win32_def
        strict_MultiByteToWideChar_def INT_MAX_def)
  from C10_exception_classes [of "replicate (2 ^ 31) 0x20" strict_win32 0] big
  have 1: "fst (Utf16FromUtf8 strict_win32 (replicate (2 ^ 31) 0x20) 0)
             = Inl (overflow_error msg_too_long)
           \<and> \<not> catches catch_Utf16FromUtf8ConversionError (overflow_error msg_too_long)"
    by blast
  from C10_exception_classes [of "[0xFF]" strict_win32 0] small r c
  have 2: "catches catch_Utf16FromUtf8ConversionError
             (Utf16FromUtf8ConversionError msg_invalid_utf8 ERROR_NO_UNICODE_TRANSLATION)
           \<and> ErrorCode (Utf16FromUtf8ConversionError msg_invalid_utf8 ERROR_NO_UNICODE_TRANSLATION)
             = Some (GetLastError strict_win32 (snd (snd (Utf16FromUtf8 strict_win32 [0xFF] 0))))"
    by (metis fst_conv)
  from 1 2 big small r c show ?thesis by simp
qed

subsection \<open>On the reference primitive\<close>

text \<open>
  C2. \<open>convert\<close> applied to the single byte \<open>0xFF\<close>, and applied to the two bytes
  \<open>0xE6 0x97\<close> (a three-byte sequence cut short), fails with the
  \<open>Utf16FromUtf8ConversionError\<close> of an invalid UTF-8 sequence (the spec's
  \<open>InvalidUtf8Sequence\<close>); neither input yields a success value.
\<close>

theorem C2_invalid_sequences:
  "fst (convert [0xFF] err)
     = Inl (Utf16FromUtf8ConversionError msg_invalid_utf8 ERROR_NO_UNICODE_TRANSLATION)
   \<and> fst (convert [0xE6, 0x97] err)
     = Inl (Utf16FromUtf8ConversionError msg_invalid_utf8 ERROR_NO_UNICODE_TRANSLATION)
   \<and> spec_ErrorKind (Utf16FromUtf8ConversionError msg_invalid_utf8 ERROR_NO_UNICODE_TRANSLATION)
     = Some InvalidUtf8Sequence
   \<and> (\<forall>utf16. fst (convert [0xFF] err) \<noteq> Inr utf16)
   \<and> (\<forall>utf16. fst (convert [0xE6, 0x97] err) \<noteq> Inr utf16)"
proof -
  have "utf8_decode [0xFF] = None" "utf8_decode [0xE6, 0x97] = None"
    by (simp_all add: utf8_decode.simps)
  then show ?thesis
    by (simp add: convert_invalid INT_MAX_def spec_ErrorKind_simps)
qed

text \<open>
  The theorem with the last-error code 0 at entry.
\<close>

theorem C2_invalid_sequences_witness:
  "fst (convert [0xFF] 0)
     = Inl (Utf16FromUtf8ConversionError msg_invalid_utf8 ERROR_NO_UNICODE_TRANSLATION)
   \<and> fst (convert [0xE6, 0x97] 0)
     = Inl (Utf16FromUtf8ConversionError msg_invalid_utf8 ERROR_NO_UNICODE_TRANSLATION)"
  using C2_invalid_sequences [of 0] by simp

text \<open>
  C6. \<open>convert\<close> applied to the six bytes \<open>E6 97 A5 E6 9C AC\<close> succeeds and returns
  exactly the two code units \<open>0x65E5\<close> and \<open>0x672C\<close>.
\<close>

theorem C6_nihon:
  "fst (convert [0xE6, 0x97, 0xA5, 0xE6, 0x9C, 0xAC] err) = Inr [0x65E5, 0x672C]"
proof -
  have "utf8_decode [0xE6, 0x97, 0xA5, 0xE6, 0x9C, 0xAC] = Some [0x65E5, 0x672C]"
    by (simp add: utf8_decode.simps second_ok_def is_trail_def low_bits_def)
  then have "convert [0xE6, 0x97, 0xA5, 0xE6, 0x9C, 0xAC] err
             = (Inr (utf16_encode [0x65E5, 0x672C]),
                [call_MultiByteToWideChar CP_UTF8 MB_ERR_INVALID_CHARS
                   [0xE6, 0x97, 0xA5, 0xE6, 0x9C, 0xAC]
                   (of_nat (length [0xE6 :: utf8_char, 0x97, 0xA5, 0xE6, 0x9C, 0xAC])) None 0,
                 call_MultiByteToWideChar CP_UTF8 MB_ERR_INVALID_CHARS
                   [0xE6, 0x97, 0xA5, 0xE6, 0x9C, 0xAC]
                   (of_nat (length [0xE6 :: utf8_char, 0x97, 0xA5, 0xE6, 0x9C, 0xAC]))
                   (Some (replicate (length (utf16_encode [0x65E5, 0x672C])) 0))
                   (of_nat (length (utf16_encode [0x65E5, 0x672C])))],
                err)"
    by (intro convert_valid) (simp_all add: INT_MAX_def)
  then show ?thesis by (simp add: utf16_encode_def utf16_encode1_def)
qed

text \<open>
  The theorem with the last-error code 0 at entry.
\<close>

theorem C6_nihon_witness:
  "fst (convert [0xE6, 0x97, 0xA5, 0xE6, 0x9C, 0xAC] 0) = Inr [0x65E5, 0x672C]"
  using C6_nihon [of 0] by simp

text \<open>
  C5, as amended. For every non-empty input of at most \<open>2^31 - 1\<close> bytes, all of them
  below \<open>0x80\<close>, \<open>convert\<close> succeeds and returns a UTF-16 sequence of the same length
  whose code unit at each index is the zero-extension of the input byte at that index.
\<close>

theorem C5_ascii:
  assumes "utf8 \<noteq> []" and "length utf8 \<le> 2 ^ 31 - 1" and "list_all is_ascii utf8"
  shows "\<exists>utf16. fst (convert utf8 err) = Inr utf16
           \<and> length utf16 = length utf8
           \<and> (\<forall>i<length utf8. utf16 ! i = ucast (utf8 ! i))"
proof -
  from assms(2) have "length utf8 \<le> INT_MAX" by (simp add: INT_MAX_def)
  from convert_valid [OF assms(1) this utf8_decode_ascii [OF assms(3)], of err]
  have "fst (convert utf8 err) = Inr (map ucast utf8)"
    by (simp add: utf16_encode_ascii [OF assms(3)])
  then show ?thesis by simp
qed

text \<open>
  The theorem at the bytes \<open>41 00 7F\<close>; the zero byte inside the input is converted
  like any other.
\<close>

theorem C5_ascii_witness:
  "[0x41, 0x00, 0x7F :: utf8_char] \<noteq> []
   \<and> length [0x41, 0x00, 0x7F :: utf8_char] \<le> 2 ^ 31 - 1
   \<and> list_all is_ascii [0x41, 0x00, 0x7F]
   \<and> fst (convert [0x41, 0x00, 0x7F] 0) = Inr [0x0041, 0x0000, 0x007F]"
proof -
  have h: "[0x41, 0x00, 0x7F :: utf8_char] \<noteq> []"
    "length [0x41, 0x00, 0x7F :: utf8_char] \<le> 2 ^ 31 - 1"
    "list_all is_ascii [0x41, 0x00, 0x7F]"
    by (simp_all add: is_ascii_def)
  from C5_ascii [OF h, of 0] obtain utf16 where
    u: "fst (convert [0x41, 0x00, 0x7F] 0) = Inr utf16" "length utf16 = 3"
      "\<forall>i<3. utf16 ! i = ucast ([0x41, 0x00, 0x7F :: utf8_char] ! i)"
    by auto
  from u(3) have "utf16 ! 0 = 0x41" "utf16 ! 1 = 0" "utf16 ! 2 = 0x7F" by simp_all
  with u(2) have "utf16 = [0x41, 0, 0x7F]"
    by (simp add: list_eq_iff_nth_eq less_Suc_eq numeral_3_eq_3 numeral_2_eq_2)
  with u(1) h show ?thesis by simp
qed

text \<open>
  Without the bound on the length the statement fails: an input of \<open>2^31\<close> letters
  \<open>A\<close> is not empty and consists of bytes below \<open>0x80\<close>, and the function throws
  \<open>std::overflow_error\<close> instead of returning.
\<close>

theorem C5_counterexample:
  "replicate (2 ^ 31) (0x41 :: utf8_char) \<noteq> []
   \<and> list_all is_ascii (replicate (2 ^ 31) (0x41 :: utf8_char))
   \<and> fst (convert (replicate (2 ^ 31) 0x41) 0) = Inl (overflow_error msg_too_long)"
  by (simp add: convert_def Utf16FromUtf8_too_long INT_MAX_def is_ascii_def list_all_iff)

text \<open>
  C8. For every input, \<open>convert\<close> either returns the complete conversion or throws,
  and which of the two is decided by the input alone. When the input is well-formed UTF-8
  of at most \<open>INT_MAX\<close> bytes, the result is the UTF-16 encoding of all the scalar
  values of the input, neither cut short nor padded, and it is well-formed UTF-16.
  Otherwise the result is an exception, and an exception comes with no output sequence.
\<close>

theorem C8_all_or_nothing:
  "(\<exists>cs. utf8_decode utf8 = Some cs \<and> length utf8 \<le> INT_MAX
         \<and> fst (convert utf8 err) = Inr (utf16_encode cs)
         \<and> utf16_well_formed (utf16_encode cs))
   \<or> (\<exists>e. fst (convert utf8 err) = Inl e
         \<and> (utf8_decode utf8 = None \<or> INT_MAX < length utf8))"
proof (cases "INT_MAX < length utf8")
  case True
  then show ?thesis by (simp add: convert_def Utf16FromUtf8_too_long)
next
  case False
  then have le: "length utf8 \<le> INT_MAX" by simp
  show ?thesis
  proof (cases "utf8_decode utf8")
    case None
    then have "utf8 \<noteq> []" by auto
    from convert_invalid [OF this le None, of err] None show ?thesis by simp
  next
    case (Some cs)
    have wf: "utf16_well_formed (utf16_encode cs)"
      using utf8_decode_scalars [OF Some] by (rule utf16_well_formed_encode)
    show ?thesis
    proof (cases "utf8 = []")
      case True
      with Some le wf show ?thesis
        by (simp add: convert_def Utf16FromUtf8_def utf16_encode_Nil)
    next
      case False
      from convert_valid [OF False le Some, of err] Some le wf show ?thesis by simp
    qed
  qed
qed

text \<open>
  The theorem at the four bytes of U+1F600, which become a surrogate pair, and at the
  three bytes \<open>ED A0 80\<close>, a surrogate smuggled into UTF-8, which is rejected.
\<close>

theorem C8_all_or_nothing_witness:
  "fst (convert [0xF0, 0x9F, 0x98, 0x80] 0) = Inr [0xD83D, 0xDE00]
   \<and> utf16_well_formed [0xD83D, 0xDE00]
   \<and> fst (convert [0xED, 0xA0, 0x80] 0)
       = Inl (Utf16FromUtf8ConversionError msg_invalid_utf8 ERROR_NO_UNICODE_TRANSLATION)"
proof -
  have d1: "utf8_decode [0xF0, 0x9F, 0x98, 0x80] = Some [0x1F600]"
    by (simp add: utf8_decode.simps second_ok_def is_trail_def low_bits_def)
  have d2: "utf8_decode [0xED, 0xA0, 0x80] = None"
    by (simp add: utf8_decode.simps second_ok_def is_trail_def low_bits_def)
  have e: "utf16_encode [0x1F600] = [0xD83D, 0xDE00]"
    by (simp add: utf16_encode_def utf16_encode1_def)
  from C8_all_or_nothing [of "[0xF0, 0x9F, 0x98, 0x80]" 0] d1 e
  have "fst (convert [0xF0, 0x9F, 0x98, 0x80] 0) = Inr [0xD83D, 0xDE00]"
    by (auto simp add: INT_MAX_def)
  moreover from C8_all_or_nothing [of "[0xED, 0xA0, 0x80]" 0] d2
  have "\<exists>e. fst (convert [0xED, 0xA0, 0x80] 0) = Inl e" by (auto simp add: INT_MAX_def)
  moreover have "fst (convert [0xED, 0xA0, 0x80] 0)
       = Inl (Utf16FromUtf8ConversionError msg_invalid_utf8 ERROR_NO_UNICODE_TRANSLATION)"
    using d2 by (simp add: convert_invalid INT_MAX_def)
  ultimately show ?thesis by simp
qed

text \<open>
  C9. \<open>convert\<close> is deterministic: a second call with the same input, started in the
  state the first call left behind, gives the same output sequence or the same exception
  with the same code as the first; more generally the outcome does not depend on the
  last-error code at entry.
\<close>

theorem C9_deterministic:
  "fst (convert utf8 (snd (snd (convert utf8 err)))) = fst (convert utf8 err)
   \<and> fst (convert utf8 err') = fst (convert utf8 err)"
  using convert_state_independent [of utf8 "snd (snd (convert utf8 err))" err]
    convert_state_independent [of utf8 err' err]
  by simp

text \<open>
  The theorem at the two bytes \<open>E6 97\<close>: the first call leaves the last-error code
  \<open>ERROR_NO_UNICODE_TRANSLATION\<close> behind, and the second call fails the same way.
\<close>

theorem C9_deterministic_witness:
  "fst (convert [0xE6, 0x97] (snd (snd (convert [0xE6, 0x97] 0)))) = fst (convert [0xE6, 0x97] 0)
   \<and> fst (convert [0xE6, 0x97] 5) = fst (convert [0xE6, 0x97] 0)
   \<and> snd (snd (convert [0xE6, 0x97] 0)) = ERROR_NO_UNICODE_TRANSLATION"
proof -
  have "utf8_decode [0xE6, 0x97] = None" by (simp add: utf8_decode.simps)
  then have "snd (snd (convert [0xE6, 0x97] 0)) = ERROR_NO_UNICODE_TRANSLATION"
    by (simp add: convert_invalid INT_MAX_def)
  with C9_deterministic [of "[0xE6, 0x97]" 0 5] show ?thesis by simp
qed

end
